theory Spec2Isabelle
  imports Complex_Main
begin

section \<open>Geometry: points and rectangles of Go's image package\<close>

text \<open>
  Go's \<open>int\<close> is a 64-bit two's complement integer on the platforms the library is
  benchmarked on. Coordinates are modelled as \<open>int\<close>; the two operations of the image
  package that gift.go uses to do arithmetic on coordinates (\<open>Rectangle.Add\<close> and
  \<open>Rectangle.Sub\<close>) wrap their results with \<open>wrap64\<close>.
\<close>

definition wrap64 :: "int \<Rightarrow> int" where
  "wrap64 x = (x + 2 ^ 63) mod 2 ^ 64 - 2 ^ 63"

record Point =
  X :: int
  Y :: int

record Rectangle =
  MinR :: Point
  MaxR :: Point

definition Pt :: "int \<Rightarrow> int \<Rightarrow> Point" where
  "Pt x y = \<lparr>X = x, Y = y\<rparr>"

definition ZR :: Rectangle where
  "ZR = \<lparr>MinR = Pt 0 0, MaxR = Pt 0 0\<rparr>"

definition Point_Eq :: "Point \<Rightarrow> Point \<Rightarrow> bool" where
  "Point_Eq p q = (p = q)"

definition Point_In :: "Point \<Rightarrow> Rectangle \<Rightarrow> bool" where
  "Point_In p r =
     (X (MinR r) \<le> X p \<and> X p < X (MaxR r) \<and> Y (MinR r) \<le> Y p \<and> Y p < Y (MaxR r))"

definition Rectangle_Empty :: "Rectangle \<Rightarrow> bool" where
  "Rectangle_Empty r = (X (MinR r) \<ge> X (MaxR r) \<or> Y (MinR r) \<ge> Y (MaxR r))"

definition Rectangle_Add :: "Rectangle \<Rightarrow> Point \<Rightarrow> Rectangle" where
  "Rectangle_Add r p =
     \<lparr>MinR = Pt (wrap64 (X (MinR r) + X p)) (wrap64 (Y (MinR r) + Y p)),
      MaxR = Pt (wrap64 (X (MaxR r) + X p)) (wrap64 (Y (MaxR r) + Y p))\<rparr>"

definition Rectangle_Sub :: "Rectangle \<Rightarrow> Point \<Rightarrow> Rectangle" where
  "Rectangle_Sub r p =
     \<lparr>MinR = Pt (wrap64 (X (MinR r) - X p)) (wrap64 (Y (MinR r) - Y p)),
      MaxR = Pt (wrap64 (X (MaxR r) - X p)) (wrap64 (Y (MaxR r) - Y p))\<rparr>"

definition Rectangle_Intersect :: "Rectangle \<Rightarrow> Rectangle \<Rightarrow> Rectangle" where
  "Rectangle_Intersect r s =
     (let minx = (if X (MinR r) < X (MinR s) then X (MinR s) else X (MinR r));
          miny = (if Y (MinR r) < Y (MinR s) then Y (MinR s) else Y (MinR r));
          maxx = (if X (MaxR r) > X (MaxR s) then X (MaxR s) else X (MaxR r));
          maxy = (if Y (MaxR r) > Y (MaxR s) then Y (MaxR s) else Y (MaxR r));
          r' = \<lparr>MinR = Pt minx miny, MaxR = Pt maxx maxy\<rparr>
      in if Rectangle_Empty r' then ZR else r')"

section \<open>Pixels\<close>

text \<open>
  Modelled from the spec: the \<open>pixel\<close> type is declared outside gift.go. The spec gives it
  four normalized floating-point channels r, g, b, a. The arithmetic of \<open>DrawAt\<close> on the
  channels is Go's floating-point arithmetic, which follows IEEE 754: a division by zero
  does not panic, it returns an infinity or a NaN. The channel type below keeps these
  special values and computes exactly on finite values; rounding, overflow to an infinity
  and the sign of zero are not modelled.
\<close>

datatype float32 = Fin real | PInf | NInf | NaN

fun fneg :: "float32 \<Rightarrow> float32" where
  "fneg (Fin x) = Fin (- x)"
| "fneg PInf = NInf"
| "fneg NInf = PInf"
| "fneg NaN = NaN"

fun fadd :: "float32 \<Rightarrow> float32 \<Rightarrow> float32" where
  "fadd (Fin x) (Fin y) = Fin (x + y)"
| "fadd NaN _ = NaN"
| "fadd _ NaN = NaN"
| "fadd PInf NInf = NaN"
| "fadd NInf PInf = NaN"
| "fadd PInf _ = PInf"
| "fadd _ PInf = PInf"
| "fadd NInf _ = NInf"
| "fadd _ NInf = NInf"

definition fsub :: "float32 \<Rightarrow> float32 \<Rightarrow> float32" where
  "fsub a b = fadd a (fneg b)"

definition inf_of_sign :: "bool \<Rightarrow> float32" where
  "inf_of_sign negative = (if negative then NInf else PInf)"

fun fmul :: "float32 \<Rightarrow> float32 \<Rightarrow> float32" where
  "fmul (Fin x) (Fin y) = Fin (x * y)"
| "fmul NaN _ = NaN"
| "fmul _ NaN = NaN"
| "fmul (Fin x) PInf = (if x = 0 then NaN else inf_of_sign (x < 0))"
| "fmul (Fin x) NInf = (if x = 0 then NaN else inf_of_sign (x > 0))"
| "fmul PInf (Fin y) = (if y = 0 then NaN else inf_of_sign (y < 0))"
| "fmul NInf (Fin y) = (if y = 0 then NaN else inf_of_sign (y > 0))"
| "fmul PInf PInf = PInf"
| "fmul PInf NInf = NInf"
| "fmul NInf PInf = NInf"
| "fmul NInf NInf = PInf"

fun fdiv :: "float32 \<Rightarrow> float32 \<Rightarrow> float32" where
  "fdiv (Fin x) (Fin y) =
     (if y = 0 then (if x = 0 then NaN else inf_of_sign (x < 0)) else Fin (x / y))"
| "fdiv NaN _ = NaN"
| "fdiv _ NaN = NaN"
| "fdiv (Fin x) PInf = Fin 0"
| "fdiv (Fin x) NInf = Fin 0"
| "fdiv PInf (Fin y) = inf_of_sign (y < 0)"
| "fdiv NInf (Fin y) = inf_of_sign (y \<ge> 0)"
| "fdiv PInf PInf = NaN"
| "fdiv PInf NInf = NaN"
| "fdiv NInf PInf = NaN"
| "fdiv NInf NInf = NaN"

text \<open>The fields r, g, b, a of the source's pixel struct.\<close>

record pixel =
  pixel_r :: float32
  pixel_g :: float32
  pixel_b :: float32
  pixel_a :: float32

section \<open>Rasters, the store and filters\<close>

text \<open>
  A raster of Go's image package is a header (bounds, pixel encoding) over a backing
  array; \<open>SubImage\<close> returns a second header over the same array. The store maps the
  address of a backing array to its pixels, indexed by the coordinates of the image's own
  coordinate system (a sub-image keeps the coordinates of its parent), and counts the
  arrays allocated so far. Two rasters alias when their headers carry the same address.
\<close>

text \<open>
  Modelled from the spec: the pixel access layer (\<open>newPixelGetter\<close>, \<open>newPixelSetter\<close>,
  \<open>getPixel\<close>, \<open>setPixel\<close>) is not in gift.go. The spec has it read and write the
  canonical normalized pixel of any encoding, so the store holds canonical pixels: the
  quantization of a concrete encoding is not modelled.
\<close>

datatype encoding = Gray | Gray16 | RGBA | RGBA64 | NRGBA | NRGBA64 | OtherEncoding

record image =
  buf :: nat
  Rect :: Rectangle
  enc :: encoding

record store =
  heap :: "nat \<Rightarrow> Point \<Rightarrow> pixel"
  next_addr :: nat

type_synonym error = string

record Options =
  Workers :: int

text \<open>
  The \<open>Filter\<close> interface: a filter is its two methods. \<open>Draw\<close> is a function of the
  output target, the input, the options and the store, and returns the error (\<open>None\<close> is
  Go's nil) and the store it leaves, also when it fails. \<open>Bounds\<close> is a function of the
  rectangle, as the spec's filter contract has it. gift.go passes the options by pointer;
  the model passes their value, so a filter does not change them.
\<close>

record Filter =
  Filter_Draw :: "image \<Rightarrow> image \<Rightarrow> Options \<Rightarrow> store \<Rightarrow> error option \<times> store"
  Filter_Bounds :: "Rectangle \<Rightarrow> Rectangle"

record GIFT =
  filters :: "Filter list"
  options :: Options

section \<open>Options and construction\<close>

text \<open>
  \<open>runtime.NumCPU()\<close> is a parameter, \<open>ncpu\<close>. \<open>min\<close> is Go's builtin.
\<close>

definition Options_init :: "int \<Rightarrow> Options \<Rightarrow> Options" where
  "Options_init ncpu o' = (if Workers o' < 1 then o'\<lparr>Workers := min 6 ncpu\<rparr> else o')"

definition defaultOptions :: "int \<Rightarrow> Options" where
  "defaultOptions ncpu = Options_init ncpu \<lparr>Workers = 0\<rparr>"

definition New :: "int \<Rightarrow> Filter list \<Rightarrow> GIFT" where
  "New ncpu fs = \<lparr>filters = fs, options = defaultOptions ncpu\<rparr>"

definition NewWithOptions :: "int \<Rightarrow> Options \<Rightarrow> Filter list \<Rightarrow> GIFT" where
  "NewWithOptions ncpu opts fs = \<lparr>filters = fs, options = Options_init ncpu opts\<rparr>"

section \<open>Bounds\<close>

text \<open>The loop of \<open>GIFT.Bounds\<close>: \<open>b\<close> is the loop variable, the list the filters left.\<close>

fun Bounds_loop :: "Filter list \<Rightarrow> Rectangle \<Rightarrow> Rectangle" where
  "Bounds_loop [] b = b"
| "Bounds_loop (f # fs) b = Bounds_loop fs (Filter_Bounds f b)"

definition Bounds :: "GIFT \<Rightarrow> Rectangle \<Rightarrow> Rectangle" where
  "Bounds g srcBounds = Bounds_loop (filters g) srcBounds"

section \<open>The helpers of the package that gift.go calls\<close>

text \<open>
  Modelled from the spec: \<open>createTempImage\<close> is not in gift.go. The spec has it return a
  freshly allocated raster of the given bounds. A fresh Go array is zeroed; the encoding
  of a temporary is not fixed by the spec and no property below depends on it.
\<close>

definition zero_pixel :: pixel where
  "zero_pixel = \<lparr>pixel_r = Fin 0, pixel_g = Fin 0, pixel_b = Fin 0, pixel_a = Fin 0\<rparr>"

definition createTempImage :: "Rectangle \<Rightarrow> store \<Rightarrow> image \<times> store" where
  "createTempImage rect s =
     (\<lparr>buf = next_addr s, Rect = rect, enc = NRGBA64\<rparr>,
      s\<lparr>heap := (heap s)(next_addr s := (\<lambda>p. zero_pixel)), next_addr := Suc (next_addr s)\<rparr>)"

text \<open>
  Modelled from the spec: \<open>getPixel\<close> and \<open>setPixel\<close> are not in gift.go. The spec defines
  them within the raster's bounds only. Out of bounds the model reads the zero pixel and
  writes nothing, as \<open>At\<close> and \<open>Set\<close> of Go's image package do.
\<close>

definition getPixel :: "image \<Rightarrow> int \<Rightarrow> int \<Rightarrow> store \<Rightarrow> pixel" where
  "getPixel img x y s =
     (if Point_In (Pt x y) (Rect img) then heap s (buf img) (Pt x y) else zero_pixel)"

definition setPixel :: "image \<Rightarrow> int \<Rightarrow> int \<Rightarrow> pixel \<Rightarrow> store \<Rightarrow> store" where
  "setPixel img x y px s =
     (if Point_In (Pt x y) (Rect img)
      then s\<lparr>heap := (heap s)(buf img := (heap s (buf img))(Pt x y := px))\<rparr>
      else s)"

text \<open>
  Modelled from the spec: \<open>copyimage\<close> is not in gift.go. The spec has it copy the source
  into the destination pixel by pixel over the overlapping region, each raster anchored at
  its own origin: the pixel at offset d from the destination's origin becomes the pixel at
  offset d from the source's origin, wherever both exist.
\<close>

definition copy_source_point :: "image \<Rightarrow> image \<Rightarrow> Point \<Rightarrow> Point" where
  "copy_source_point dst src p =
     Pt (X p - X (MinR (Rect dst)) + X (MinR (Rect src)))
        (Y p - Y (MinR (Rect dst)) + Y (MinR (Rect src)))"

definition copyimage :: "image \<Rightarrow> image \<Rightarrow> Options \<Rightarrow> store \<Rightarrow> store" where
  "copyimage dst src opts s =
     s\<lparr>heap := (heap s)(buf dst := (\<lambda>p.
         if Point_In p (Rect dst) \<and> Point_In (copy_source_point dst src p) (Rect src)
         then heap s (buf src) (copy_source_point dst src p)
         else heap s (buf dst) p))\<rparr>"

text \<open>
  The loop \<open>for i := start; i < stop; i++ { body(i) }\<close>, which gift.go nests twice in each
  of its two row workers.
\<close>

function for_loop :: "(int \<Rightarrow> store \<Rightarrow> store) \<Rightarrow> int \<Rightarrow> int \<Rightarrow> store \<Rightarrow> store" where
  "for_loop body i stop s = (if i < stop then for_loop body (i + 1) stop (body i s) else s)"
  by pat_completeness auto
termination
  by (relation "measure (\<lambda>(body, i, stop, s). nat (stop - i))") auto

text \<open>
  Modelled from the spec: \<open>parallelize\<close> is not in gift.go. The spec has it dispatch
  nothing when \<open>stop \<le> start\<close>, and otherwise cut the half-open range into
  \<open>min workerLimit (stop - start)\<close> contiguous chunks without gap or overlap, run the work
  on every chunk and return when all are done. The spec leaves the sizes of the chunks
  open; here chunk k of n runs from \<open>start + k * count div n\<close> to
  \<open>start + (k + 1) * count div n\<close>. The chunks run one after the other: the workers of
  gift.go write disjoint rows of the destination and read nothing another row writes.
\<close>

definition chunk_bound :: "nat \<Rightarrow> int \<Rightarrow> int \<Rightarrow> nat \<Rightarrow> int" where
  "chunk_bound n start stop k = start + (int k * (stop - start)) div int n"

definition chunks :: "nat \<Rightarrow> int \<Rightarrow> int \<Rightarrow> (int \<times> int) list" where
  "chunks n start stop =
     map (\<lambda>k. (chunk_bound n start stop k, chunk_bound n start stop (Suc k))) [0..<n]"

definition parallelize ::
  "int \<Rightarrow> int \<Rightarrow> int \<Rightarrow> (int \<Rightarrow> int \<Rightarrow> store \<Rightarrow> store) \<Rightarrow> store \<Rightarrow> store" where
  "parallelize procs start stop fn s =
     (if stop \<le> start then s
      else foldl (\<lambda>s' (a, b). fn a b s') s
             (chunks (nat (min procs (stop - start))) start stop))"

section \<open>Draw\<close>

text \<open>
  The value of \<open>var tmpOut draw.Image\<close> before the first iteration, Go's nil. The loop
  reads \<open>tmpOut\<close> from the second iteration on only.
\<close>

definition nil_image :: image where
  "nil_image = \<lparr>buf = 0, Rect = ZR, enc = OtherEncoding\<rparr>"

text \<open>
  The loop of \<open>GIFT.Draw\<close>. \<open>i\<close> is the index, \<open>tmpOut\<close> the loop-carried variable and the
  list the filters from index \<open>i\<close> on. Beside the returned error and the store, the loop
  records each call \<open>f.Draw(tmpOut, tmpIn, &g.options)\<close> it makes: the index of the filter,
  the output target, the input and the store the call starts from.
\<close>

record call =
  call_index :: nat
  call_out :: image
  call_in :: image
  call_store :: store

fun Draw_loop ::
  "GIFT \<Rightarrow> image \<Rightarrow> image \<Rightarrow> nat \<Rightarrow> image \<Rightarrow> Filter list \<Rightarrow> store
     \<Rightarrow> (error option \<times> store) \<times> call list" where
  "Draw_loop g dst src i tmpOut [] s = ((None, s), [])"
| "Draw_loop g dst src i tmpOut (f # fs) s =
     (let first = 0; last = length (filters g) - 1;
          tmpIn = (if i = first then src else tmpOut);
          (tmpOut', s1) = (if i = last then (dst, s)
                           else createTempImage (Filter_Bounds f (Rect tmpIn)) s);
          c = \<lparr>call_index = i, call_out = tmpOut', call_in = tmpIn, call_store = s1\<rparr>
      in case Filter_Draw f tmpOut' tmpIn (options g) s1 of
           (Some err, s2) \<Rightarrow> ((Some err, s2), [c])
         | (None, s2) \<Rightarrow>
             (let (res, calls) = Draw_loop g dst src (Suc i) tmpOut' fs s2
              in (res, c # calls)))"

text \<open>What the recorded call returned: the filter's \<open>Draw\<close> on the recorded arguments.\<close>

definition call_result :: "GIFT \<Rightarrow> call \<Rightarrow> error option \<times> store" where
  "call_result g c =
     Filter_Draw (filters g ! call_index c) (call_out c) (call_in c) (options g) (call_store c)"

definition Draw_run ::
  "GIFT \<Rightarrow> image \<Rightarrow> image \<Rightarrow> store \<Rightarrow> (error option \<times> store) \<times> call list" where
  "Draw_run g dst src s =
     (if length (filters g) = 0 then ((None, copyimage dst src (options g) s), [])
      else Draw_loop g dst src 0 nil_image (filters g) s)"

definition Draw :: "GIFT \<Rightarrow> image \<Rightarrow> image \<Rightarrow> store \<Rightarrow> error option \<times> store" where
  "Draw g dst src s = fst (Draw_run g dst src s)"

definition Draw_calls :: "GIFT \<Rightarrow> image \<Rightarrow> image \<Rightarrow> store \<Rightarrow> call list" where
  "Draw_calls g dst src s = snd (Draw_run g dst src s)"

section \<open>DrawAt\<close>

type_synonym Operator = int

definition CopyOperator :: Operator where
  "CopyOperator = 0"

definition OverOperator :: Operator where
  "OverOperator = 1"

text \<open>The body of the inner loop of the Over branch, at the pixel \<open>(x, y)\<close>.\<close>

definition over_pixel :: "pixel \<Rightarrow> pixel \<Rightarrow> pixel" where
  "over_pixel px0 px1 =
     (let c1 = pixel_a px1;
          c0 = fmul (fsub (Fin 1) c1) (pixel_a px0);
          cs = fadd c0 c1;
          c0 = fdiv c0 cs;
          c1 = fdiv c1 cs;
          r = fadd (fmul (pixel_r px0) c0) (fmul (pixel_r px1) c1);
          g = fadd (fmul (pixel_g px0) c0) (fmul (pixel_g px1) c1);
          b = fadd (fmul (pixel_b px0) c0) (fmul (pixel_b px1) c1);
          a = fadd (pixel_a px0) (fmul (pixel_a px1) (fsub (Fin 1) (pixel_a px0)))
      in \<lparr>pixel_r = r, pixel_g = g, pixel_b = b, pixel_a = a\<rparr>)"

definition over_body :: "image \<Rightarrow> image \<Rightarrow> int \<Rightarrow> int \<Rightarrow> store \<Rightarrow> store" where
  "over_body dst tmp x y s =
     (let px0 = getPixel dst x y s;
          px1 = getPixel tmp x y s
      in setPixel dst x y (over_pixel px0 px1) s)"

definition over_work :: "image \<Rightarrow> image \<Rightarrow> Rectangle \<Rightarrow> int \<Rightarrow> int \<Rightarrow> store \<Rightarrow> store" where
  "over_work dst tmp ib start stop s =
     for_loop (\<lambda>y. for_loop (\<lambda>x. over_body dst tmp x y) (X (MinR ib)) (X (MaxR ib)))
       start stop s"

text \<open>The body of the inner loop of the default branch, and its row worker.\<close>

definition copy_body :: "image \<Rightarrow> image \<Rightarrow> int \<Rightarrow> int \<Rightarrow> store \<Rightarrow> store" where
  "copy_body dst tmp x y s = setPixel dst x y (getPixel tmp x y s) s"

definition copy_work :: "image \<Rightarrow> image \<Rightarrow> Rectangle \<Rightarrow> int \<Rightarrow> int \<Rightarrow> store \<Rightarrow> store" where
  "copy_work dst tmp ib start stop s =
     for_loop (\<lambda>y. for_loop (\<lambda>x. copy_body dst tmp x y) (X (MinR ib)) (X (MaxR ib)))
       start stop s"

text \<open>
  \<open>SubImage\<close> of Go's image package, the same for the six encodings \<open>getSubImage\<close> lists:
  the sub-image shares the backing array; an empty intersection gives an empty image.
\<close>

definition SubImage :: "image \<Rightarrow> Rectangle \<Rightarrow> image" where
  "SubImage img rect =
     (let r' = Rectangle_Intersect rect (Rect img)
      in if Rectangle_Empty r' then img\<lparr>Rect := ZR\<rparr> else img\<lparr>Rect := r'\<rparr>)"

definition getSubImage :: "image \<Rightarrow> Point \<Rightarrow> image option" where
  "getSubImage img pt =
     (if \<not> Point_In pt (Rect img) then None
      else case enc img of
             Gray \<Rightarrow> Some (SubImage img \<lparr>MinR = pt, MaxR = MaxR (Rect img)\<rparr>)
           | Gray16 \<Rightarrow> Some (SubImage img \<lparr>MinR = pt, MaxR = MaxR (Rect img)\<rparr>)
           | RGBA \<Rightarrow> Some (SubImage img \<lparr>MinR = pt, MaxR = MaxR (Rect img)\<rparr>)
           | RGBA64 \<Rightarrow> Some (SubImage img \<lparr>MinR = pt, MaxR = MaxR (Rect img)\<rparr>)
           | NRGBA \<Rightarrow> Some (SubImage img \<lparr>MinR = pt, MaxR = MaxR (Rect img)\<rparr>)
           | NRGBA64 \<Rightarrow> Some (SubImage img \<lparr>MinR = pt, MaxR = MaxR (Rect img)\<rparr>)
           | OtherEncoding \<Rightarrow> None)"

text \<open>The rectangle \<open>tb\<close> of both branches: the output bounds moved to the point \<open>pt\<close>.\<close>

definition translated_bounds :: "GIFT \<Rightarrow> image \<Rightarrow> Point \<Rightarrow> Rectangle" where
  "translated_bounds g src pt =
     (let tb = Bounds g (Rect src)
      in Rectangle_Add (Rectangle_Sub tb (MinR tb)) pt)"

definition DrawAt ::
  "GIFT \<Rightarrow> image \<Rightarrow> image \<Rightarrow> Point \<Rightarrow> Operator \<Rightarrow> store \<Rightarrow> error option \<times> store" where
  "DrawAt g dst src pt op s =
     (if op = OverOperator then
        (let tb = translated_bounds g src pt;
             (tmp, s1) = createTempImage tb s
         in case Draw g tmp src s1 of
              (Some err, s2) \<Rightarrow> (Some err, s2)
            | (None, s2) \<Rightarrow>
                (let ib = Rectangle_Intersect tb (Rect dst)
                 in (None, parallelize (Workers (options g)) (Y (MinR ib)) (Y (MaxR ib))
                             (over_work dst tmp ib) s2)))
      else if Point_Eq pt (MinR (Rect dst)) then Draw g dst src s
      else case getSubImage dst pt of
             Some subimg \<Rightarrow> Draw g subimg src s
           | None \<Rightarrow>
               (let tb = translated_bounds g src pt;
                    (tmp, s1) = createTempImage tb s
                in case Draw g tmp src s1 of
                     (Some err, s2) \<Rightarrow> (Some err, s2)
                   | (None, s2) \<Rightarrow>
                       (let ib = Rectangle_Intersect tb (Rect dst)
                        in (None, parallelize (Workers (options g)) (Y (MinR ib)) (Y (MaxR ib))
                                    (copy_work dst tmp ib) s2))))"

section \<open>The spec's formula and the filter contract\<close>





text \<open>
  Modelled from the spec: the filters are external to gift.go. The spec's filter contract
  has a render write the pixels of its output raster inside the filter's bounds of the
  input raster's bounds, intersected with the output raster's bounds, and nothing outside
  that region. A render may allocate rasters of its own; it leaves the rasters that exist
  when it starts alone.
\<close>

definition filter_contract :: "Filter \<Rightarrow> bool" where
  "filter_contract f =
     (\<forall>out inp opts s.
        next_addr s \<le> next_addr (snd (Filter_Draw f out inp opts s))
      \<and> (\<forall>a p. a < next_addr s
             \<and> \<not> (a = buf out \<and> Point_In p (Filter_Bounds f (Rect inp))
                    \<and> Point_In p (Rect out))
           \<longrightarrow> heap (snd (Filter_Draw f out inp opts s)) a p = heap s a p))"


text \<open>
  What a pixel loop of \<open>DrawAt\<close> computes, in one step: every pixel of the destination in
  the region \<open>R\<close> becomes \<open>h\<close> of itself and of the pixel of \<open>tmp\<close> at the same point.
\<close>

definition blend_region ::
  "(pixel \<Rightarrow> pixel \<Rightarrow> pixel) \<Rightarrow> image \<Rightarrow> image \<Rightarrow> (Point \<Rightarrow> bool) \<Rightarrow> store \<Rightarrow> store" where
  "blend_region h dst tmp R s =
     s\<lparr>heap := (heap s)(buf dst := (\<lambda>p.
         if R p \<and> Point_In p (Rect dst)
         then h (heap s (buf dst) p) (getPixel tmp (X p) (Y p) s)
         else heap s (buf dst) p))\<rparr>"

section \<open>Concrete rasters and filters\<close>

text \<open>
  Small inputs on which the theorems below are instantiated: a store with two rasters, a
  filter that fills its output with one colour inside the bounds of its input, and a
  filter whose render fails.
\<close>

definition red :: pixel where
  "red = \<lparr>pixel_r = Fin 1, pixel_g = Fin 0, pixel_b = Fin 0, pixel_a = Fin 1\<rparr>"

definition blue :: pixel where
  "blue = \<lparr>pixel_r = Fin 0, pixel_g = Fin 0, pixel_b = Fin 1, pixel_a = Fin 1\<rparr>"

definition example_dst :: image where
  "example_dst = \<lparr>buf = 0, Rect = \<lparr>MinR = Pt 0 0, MaxR = Pt 3 3\<rparr>, enc = RGBA\<rparr>"

definition example_src :: image where
  "example_src = \<lparr>buf = 1, Rect = \<lparr>MinR = Pt 0 0, MaxR = Pt 2 2\<rparr>, enc = NRGBA\<rparr>"


definition example_store :: store where
  "example_store = \<lparr>heap = (\<lambda>a p. if a = 0 then blue else red), next_addr = 2\<rparr>"





definition fill_filter :: "pixel \<Rightarrow> Filter" where
  "fill_filter px =
     \<lparr>Filter_Draw = (\<lambda>out inp opts s.
        (None, s\<lparr>heap := (heap s)(buf out := (\<lambda>p.
           if Point_In p (Rect inp) \<and> Point_In p (Rect out) then px
           else heap s (buf out) p))\<rparr>)),
      Filter_Bounds = (\<lambda>rect. rect)\<rparr>"

definition failing_filter :: Filter where
  "failing_filter =
     \<lparr>Filter_Draw = (\<lambda>out inp opts s. (Some ''stage failure'', s)),
      Filter_Bounds = (\<lambda>rect. rect)\<rparr>"

section \<open>Properties of construction and bounds\<close>

lemma Bounds_loop_foldl: "Bounds_loop fs b = foldl (\<lambda>b f. Filter_Bounds f b) b fs"
  by (induction fs arbitrary: b) simp_all

text \<open>
  C3: for every filter list and every input rectangle, \<open>Bounds\<close> is the left fold of the
  filters' bounds functions over the input rectangle, in sequence order: the output of
  stage i is the input of stage i + 1. \<open>Bounds\<close> is a function of the filter list and the
  rectangle alone: it neither takes nor returns the store, so it allocates nothing.
\<close>

theorem Bounds_is_fold:
  "Bounds g B = foldl (\<lambda>b f. Filter_Bounds f b) B (filters g)
   \<and> Bounds (g\<lparr>filters := filters g @ [f]\<rparr>) B = Filter_Bounds f (Bounds g B)
   \<and> Bounds (g\<lparr>filters := []\<rparr>) B = B"
  by (simp add: Bounds_def Bounds_loop_foldl)

text \<open>
  C9: construction resolves an unset or invalid \<open>Workers\<close> (less than 1) to
  \<open>min 6 ncpu\<close>, keeps a valid one, and, as the core count is at least 1, never leaves a
  value less than 1. \<open>New\<close> takes no options and resolves the unset default the same way.
\<close>

theorem workers_resolved:
  assumes "1 \<le> ncpu"
  shows "(Workers opts < 1 \<longrightarrow> Workers (options (NewWithOptions ncpu opts fs)) = min 6 ncpu)
       \<and> (1 \<le> Workers opts \<longrightarrow> Workers (options (NewWithOptions ncpu opts fs)) = Workers opts)
       \<and> 1 \<le> Workers (options (NewWithOptions ncpu opts fs))
       \<and> Workers (options (New ncpu fs)) = min 6 ncpu
       \<and> 1 \<le> Workers (options (New ncpu fs))"
  using assms by (simp add: NewWithOptions_def New_def defaultOptions_def Options_init_def)

theorem workers_resolved_witness:
  "(1::int) \<le> 4
   \<and> Workers (options (NewWithOptions 4 \<lparr>Workers = 0\<rparr> [])) = 4
   \<and> Workers (options (NewWithOptions 4 \<lparr>Workers = - 3\<rparr> [])) = 4
   \<and> Workers (options (NewWithOptions 16 \<lparr>Workers = 0\<rparr> [])) = 6
   \<and> Workers (options (NewWithOptions 4 \<lparr>Workers = 9\<rparr> [])) = 9
   \<and> Workers (options (New 4 [])) = 4"
  using workers_resolved [of 4 "\<lparr>Workers = 0\<rparr>" "[]"]
        workers_resolved [of 4 "\<lparr>Workers = - 3\<rparr>" "[]"]
        workers_resolved [of 16 "\<lparr>Workers = 0\<rparr>" "[]"]
        workers_resolved [of 4 "\<lparr>Workers = 9\<rparr>" "[]"]
  by simp

section \<open>Properties of Draw\<close>

text \<open>
  The loop never reads the initial value of \<open>tmpOut\<close>: started at index 0 it computes the
  same from any value.
\<close>

lemma Draw_loop_initial_tmpOut:
  "Draw_loop g dst src 0 t fs s = Draw_loop g dst src 0 t' fs s"
  by (cases fs) simp_all

lemma Draw_loop_Cons:
  assumes "Draw_loop g dst src i t (f # fs) s = (res, calls)"
  shows "\<exists>cs. calls = \<lparr>call_index = i,
            call_out = fst (if i = length (filters g) - 1 then (dst, s)
                            else createTempImage
                                   (Filter_Bounds f (Rect (if i = 0 then src else t))) s),
            call_in = (if i = 0 then src else t),
            call_store = snd (if i = length (filters g) - 1 then (dst, s)
                              else createTempImage
                                     (Filter_Bounds f (Rect (if i = 0 then src else t))) s)\<rparr>
          # cs"
  using assms
  by (auto simp: Let_def split: prod.splits option.splits if_splits)

lemma Draw_loop_calls:
  assumes "drop i (filters g) = fs"
    and "Draw_loop g dst src i t fs s = ((e, s'), calls)"
  shows "map call_index calls = [i..<i + length calls]
    \<and> length calls \<le> length fs
    \<and> (fs \<noteq> [] \<longrightarrow> calls \<noteq> [])
    \<and> (\<forall>c\<in>set (butlast calls). fst (call_result g c) = None)
    \<and> (calls \<noteq> [] \<longrightarrow> call_result g (last calls) = (e, s'))
    \<and> (e = None \<longrightarrow> length calls = length fs)"
  using assms
proof (induction fs arbitrary: i t s e s' calls)
  case Nil
  then show ?case by simp
next
  case (Cons f fs)
  let ?tmpIn = "if i = 0 then src else t"
  obtain out s1 where os:
    "(if i = length (filters g) - 1 then (dst, s)
      else createTempImage (Filter_Bounds f (Rect ?tmpIn)) s) = (out, s1)"
    by (cases "(if i = length (filters g) - 1 then (dst, s)
                else createTempImage (Filter_Bounds f (Rect ?tmpIn)) s)")
  let ?c = "\<lparr>call_index = i, call_out = out, call_in = ?tmpIn, call_store = s1\<rparr>"
  have fi: "filters g ! i = f"
    using Cons.prems(1) by (metis nth_via_drop)
  have dr: "drop (Suc i) (filters g) = fs"
    using Cons.prems(1) by (metis drop_Suc tl_drop list.sel(3))
  obtain e1 s2 where fd: "Filter_Draw f out ?tmpIn (options g) s1 = (e1, s2)"
    by (cases "Filter_Draw f out ?tmpIn (options g) s1")
  have cr: "call_result g ?c = (e1, s2)"
    by (simp add: call_result_def fi fd)
  show ?case
  proof (cases e1)
    case (Some err)
    with Cons.prems(2) os fd have "e = Some err" "s' = s2" "calls = [?c]"
      by (auto simp: Let_def)
    then show ?thesis using cr Some by simp
  next
    case None
    obtain res cs where rec: "Draw_loop g dst src (Suc i) out fs s2 = (res, cs)"
      by (cases "Draw_loop g dst src (Suc i) out fs s2")
    with Cons.prems(2) os fd None have eq: "res = (e, s')" "calls = ?c # cs"
      by (auto simp: Let_def)
    note IH = Cons.IH[OF dr rec[unfolded eq(1)]]
    have idx: "map call_index calls = [i..<i + length calls]"
      using IH eq(2) by (simp add: upt_rec)
    have earlier: "\<forall>c\<in>set (butlast calls). fst (call_result g c) = None"
      using IH eq(2) cr None by auto
    have final: "call_result g (last calls) = (e, s')"
    proof (cases cs)
      case Nil
      then have "fs = []" using IH by auto
      with rec eq have "(e, s') = (None, s2)" by simp
      then show ?thesis using eq(2) Nil cr None by simp
    next
      case (Cons c' cs')
      then show ?thesis using IH eq(2) by simp
    qed
    show ?thesis using idx earlier final IH eq(2) by simp
  qed
qed

lemma Draw_loop_seq:
  assumes "drop i (filters g) = fs"
    and "Draw_loop g dst src i t fs s = (res, calls)"
  shows "\<forall>j. Suc j < length calls \<longrightarrow>
       call_in (calls ! Suc j) = call_out (calls ! j)
     \<and> call_store (calls ! Suc j) =
         (if call_index (calls ! Suc j) = length (filters g) - 1
          then snd (call_result g (calls ! j))
          else snd (createTempImage
                      (Filter_Bounds (filters g ! call_index (calls ! Suc j))
                         (Rect (call_out (calls ! j))))
                      (snd (call_result g (calls ! j)))))"
  using assms
proof (induction fs arbitrary: i t s res calls)
  case Nil
  then show ?case by simp
next
  case (Cons f fs)
  let ?tmpIn = "if i = 0 then src else t"
  obtain out s1 where os:
    "(if i = length (filters g) - 1 then (dst, s)
      else createTempImage (Filter_Bounds f (Rect ?tmpIn)) s) = (out, s1)"
    by (cases "(if i = length (filters g) - 1 then (dst, s)
                else createTempImage (Filter_Bounds f (Rect ?tmpIn)) s)")
  let ?c = "\<lparr>call_index = i, call_out = out, call_in = ?tmpIn, call_store = s1\<rparr>"
  have fi: "filters g ! i = f"
    using Cons.prems(1) by (metis nth_via_drop)
  have dr: "drop (Suc i) (filters g) = fs"
    using Cons.prems(1) by (metis drop_Suc tl_drop list.sel(3))
  obtain e1 s2 where fd: "Filter_Draw f out ?tmpIn (options g) s1 = (e1, s2)"
    by (cases "Filter_Draw f out ?tmpIn (options g) s1")
  have cr: "call_result g ?c = (e1, s2)"
    by (simp add: call_result_def fi fd)
  show ?case
  proof (cases e1)
    case (Some err)
    with Cons.prems(2) os fd have "calls = [?c]"
      by (auto simp: Let_def)
    then show ?thesis by simp
  next
    case None
    obtain res' cs where rec: "Draw_loop g dst src (Suc i) out fs s2 = (res', cs)"
      by (cases "Draw_loop g dst src (Suc i) out fs s2")
    with Cons.prems(2) os fd None have eq: "calls = ?c # cs"
      by (auto simp: Let_def)
    note IH = Cons.IH[OF dr rec]
    show ?thesis
    proof (intro allI impI)
      fix j assume j: "Suc j < length calls"
      show "call_in (calls ! Suc j) = call_out (calls ! j)
        \<and> call_store (calls ! Suc j) =
            (if call_index (calls ! Suc j) = length (filters g) - 1
             then snd (call_result g (calls ! j))
             else snd (createTempImage
                         (Filter_Bounds (filters g ! call_index (calls ! Suc j))
                            (Rect (call_out (calls ! j))))
                         (snd (call_result g (calls ! j)))))"
      proof (cases j)
        case 0
        then obtain f' fs' where fs: "fs = f' # fs'"
          using j eq rec by (cases fs) auto
        have f': "filters g ! Suc i = f'"
          using dr fs by (metis nth_via_drop)
        from Draw_loop_Cons[OF rec[unfolded fs]] obtain cs' where
          "cs = \<lparr>call_index = Suc i,
            call_out = fst (if Suc i = length (filters g) - 1 then (dst, s2)
                            else createTempImage
                                   (Filter_Bounds f' (Rect (if Suc i = 0 then src else out))) s2),
            call_in = (if Suc i = 0 then src else out),
            call_store = snd (if Suc i = length (filters g) - 1 then (dst, s2)
                              else createTempImage
                                     (Filter_Bounds f' (Rect (if Suc i = 0 then src else out))) s2)\<rparr>
            # cs'"
          by blast
        then show ?thesis using 0 eq cr f' by simp
      next
        case (Suc j')
        then show ?thesis using IH j eq by simp
      qed
    qed
  qed
qed

text \<open>
  C5: \<open>Draw\<close> with at least one filter calls the renders of the filters 0, 1, ..., k in
  this order, each once; every call before the last returned success, and \<open>Draw\<close> returns
  what the last call returned, error and store. So a render that fails is the last call:
  its failure is returned at once, no filter after it runs and none is called again. When
  \<open>Draw\<close> returns success every filter was called. Each call takes the output target of
  the call before it as its input and starts from the store the call before it returned
  (after the allocation of its own output target, when it is not the last filter).
\<close>

theorem Draw_stops_at_first_failure:
  assumes "filters g \<noteq> []"
  shows "Draw_calls g dst src s \<noteq> []
    \<and> map call_index (Draw_calls g dst src s) = [0..<length (Draw_calls g dst src s)]
    \<and> length (Draw_calls g dst src s) \<le> length (filters g)
    \<and> (\<forall>c\<in>set (butlast (Draw_calls g dst src s)). fst (call_result g c) = None)
    \<and> call_result g (last (Draw_calls g dst src s)) = Draw g dst src s
    \<and> (fst (Draw g dst src s) = None \<longrightarrow>
          length (Draw_calls g dst src s) = length (filters g))
    \<and> (\<forall>j. Suc j < length (Draw_calls g dst src s) \<longrightarrow>
          call_in (Draw_calls g dst src s ! Suc j) = call_out (Draw_calls g dst src s ! j)
        \<and> call_store (Draw_calls g dst src s ! Suc j) =
            (if call_index (Draw_calls g dst src s ! Suc j) = length (filters g) - 1
             then snd (call_result g (Draw_calls g dst src s ! j))
             else snd (createTempImage
                         (Filter_Bounds (filters g ! call_index (Draw_calls g dst src s ! Suc j))
                            (Rect (call_out (Draw_calls g dst src s ! j))))
                         (snd (call_result g (Draw_calls g dst src s ! j))))))"
proof -
  obtain e s' calls where run: "Draw_loop g dst src 0 nil_image (filters g) s = ((e, s'), calls)"
    by (metis surj_pair)
  have d: "Draw g dst src s = (e, s')" and c: "Draw_calls g dst src s = calls"
    using assms run by (simp_all add: Draw_def Draw_calls_def Draw_run_def)
  have dr: "drop 0 (filters g) = filters g"
    by simp
  from Draw_loop_calls[OF dr run] Draw_loop_seq[OF dr run] assms
  show ?thesis unfolding c d by simp
qed

text \<open>
  Three filters of which the second fails: two calls, and the destination keeps its
  pixels. Two filters that succeed: two calls.
\<close>

theorem Draw_stops_at_first_failure_witness:
  "fst (Draw \<lparr>filters = [fill_filter red, failing_filter, fill_filter blue],
               options = \<lparr>Workers = 1\<rparr>\<rparr> example_dst example_src example_store)
     = Some ''stage failure''
   \<and> map call_index
        (Draw_calls \<lparr>filters = [fill_filter red, failing_filter, fill_filter blue],
                     options = \<lparr>Workers = 1\<rparr>\<rparr> example_dst example_src example_store)
     = [0, 1]
   \<and> heap (snd (Draw \<lparr>filters = [fill_filter red, failing_filter, fill_filter blue],
                       options = \<lparr>Workers = 1\<rparr>\<rparr> example_dst example_src example_store))
        0 (Pt 0 0) = blue
   \<and> fst (Draw \<lparr>filters = [fill_filter red, fill_filter blue], options = \<lparr>Workers = 1\<rparr>\<rparr>
          example_dst example_src example_store) = None
   \<and> map call_index
        (Draw_calls \<lparr>filters = [fill_filter red, fill_filter blue], options = \<lparr>Workers = 1\<rparr>\<rparr>
           example_dst example_src example_store)
     = [0, 1]"
proof -
  let ?g = "\<lparr>filters = [fill_filter red, failing_filter, fill_filter blue],
             options = \<lparr>Workers = 1\<rparr>\<rparr>"
  let ?h = "\<lparr>filters = [fill_filter red, fill_filter blue], options = \<lparr>Workers = 1\<rparr>\<rparr>"
  have ne: "filters ?g \<noteq> []" "filters ?h \<noteq> []"
    by simp_all
  have run: "fst (Draw ?g example_dst example_src example_store) = Some ''stage failure''"
    by (simp add: Draw_def Draw_run_def Let_def fill_filter_def failing_filter_def
        createTempImage_def)
  have calls: "map call_index (Draw_calls ?g example_dst example_src example_store) = [0, 1]"
    by (simp add: Draw_calls_def Draw_run_def Let_def fill_filter_def failing_filter_def
        createTempImage_def)
  have px: "heap (snd (Draw ?g example_dst example_src example_store)) 0 (Pt 0 0) = blue"
    by (simp add: Draw_def Draw_run_def Let_def fill_filter_def failing_filter_def
        createTempImage_def example_store_def example_src_def)
  have run': "fst (Draw ?h example_dst example_src example_store) = None"
    by (simp add: Draw_def Draw_run_def Let_def fill_filter_def createTempImage_def)
  have calls': "map call_index (Draw_calls ?h example_dst example_src example_store) = [0, 1]"
    by (simp add: Draw_calls_def Draw_run_def Let_def fill_filter_def createTempImage_def)
  have last_failed: "call_result ?g (last (Draw_calls ?g example_dst example_src example_store))
      = Draw ?g example_dst example_src example_store"
    using Draw_stops_at_first_failure [OF ne(1), of example_dst example_src example_store]
    by blast
  have all_called: "fst (Draw ?h example_dst example_src example_store) = None \<longrightarrow>
      length (Draw_calls ?h example_dst example_src example_store) = length (filters ?h)"
    using Draw_stops_at_first_failure [OF ne(2), of example_dst example_src example_store]
    by blast
  from last_failed all_called run calls px run' calls'
  show ?thesis
    by simp
qed

text \<open>
  C6: with no filter, \<open>Draw\<close> returns success and its whole effect is \<open>copyimage\<close>: the
  destination pixel at offset d from the destination's origin becomes the source pixel at
  offset d from the source's origin wherever both rasters have a pixel at that offset, the
  other pixels keep their value and nothing is allocated. It is not a no-op: there are
  rasters on which the store changes.
\<close>

theorem Draw_no_filter_copies:
  "Draw \<lparr>filters = [], options = opts\<rparr> dst src s = (None, copyimage dst src opts s)
   \<and> Draw_calls \<lparr>filters = [], options = opts\<rparr> dst src s = []
   \<and> heap (snd (Draw \<lparr>filters = [], options = opts\<rparr> dst src s)) (buf dst) p =
       (if Point_In p (Rect dst) \<and> Point_In (copy_source_point dst src p) (Rect src)
        then heap s (buf src) (copy_source_point dst src p)
        else heap s (buf dst) p)
   \<and> next_addr (snd (Draw \<lparr>filters = [], options = opts\<rparr> dst src s)) = next_addr s
   \<and> heap (snd (Draw \<lparr>filters = [], options = opts\<rparr> example_dst example_src example_store))
        0 (Pt 1 1) = red
   \<and> heap example_store 0 (Pt 1 1) = blue"
  by (simp add: Draw_def Draw_calls_def Draw_run_def copyimage_def example_dst_def
      example_src_def example_store_def copy_source_point_def Point_In_def Pt_def)

text \<open>
  C7: with exactly one filter, \<open>Draw\<close> is that filter's render, called once on the caller's
  destination (the same header over the same backing array) and the caller's source, from
  the very store \<open>Draw\<close> was given: nothing is allocated before the call, and what the
  call returns, error and store, is what \<open>Draw\<close> returns.
\<close>

theorem Draw_single_filter_direct:
  "Draw \<lparr>filters = [f], options = opts\<rparr> dst src s = Filter_Draw f dst src opts s
   \<and> Draw_calls \<lparr>filters = [f], options = opts\<rparr> dst src s =
       [\<lparr>call_index = 0, call_out = dst, call_in = src, call_store = s\<rparr>]"
  by (simp add: Draw_def Draw_calls_def Draw_run_def Let_def split: prod.splits option.splits)

section \<open>Properties of DrawAt\<close>

text \<open>
  C4: \<open>DrawAt\<close> at the destination's own origin with the Replace (Copy) operator is \<open>Draw\<close>:
  the same result and the same store, hence the same pixels.
\<close>

theorem DrawAt_origin_is_Draw:
  "DrawAt g dst src (MinR (Rect dst)) CopyOperator s = Draw g dst src s"
  by (simp add: DrawAt_def CopyOperator_def OverOperator_def Point_Eq_def)

text \<open>
  C10: \<open>DrawAt\<close> treats every operator value other than \<open>OverOperator\<close>, enumerated or not,
  as the Copy operator: the same error and the same store.
\<close>

theorem DrawAt_default_operator:
  assumes "op \<noteq> OverOperator"
  shows "DrawAt g dst src pt op s = DrawAt g dst src pt CopyOperator s"
  using assms by (simp add: DrawAt_def CopyOperator_def OverOperator_def)

theorem DrawAt_default_operator_witness:
  "(7::int) \<noteq> OverOperator
   \<and> DrawAt \<lparr>filters = [fill_filter red], options = \<lparr>Workers = 1\<rparr>\<rparr>
        example_dst example_src (Pt 0 0) 7 example_store
     = DrawAt \<lparr>filters = [fill_filter red], options = \<lparr>Workers = 1\<rparr>\<rparr>
        example_dst example_src (Pt 0 0) CopyOperator example_store
   \<and> fst (DrawAt \<lparr>filters = [fill_filter red], options = \<lparr>Workers = 1\<rparr>\<rparr>
        example_dst example_src (Pt 0 0) (- 2) example_store) = None"
proof -
  have ne: "(7::int) \<noteq> OverOperator" "(- 2::int) \<noteq> OverOperator"
    by (simp_all add: OverOperator_def)
  have ok: "fst (DrawAt \<lparr>filters = [fill_filter red], options = \<lparr>Workers = 1\<rparr>\<rparr>
        example_dst example_src (Pt 0 0) CopyOperator example_store) = None"
    by (simp add: DrawAt_def CopyOperator_def OverOperator_def Point_Eq_def example_dst_def
        Draw_def Draw_run_def Let_def fill_filter_def)
  show ?thesis
    using DrawAt_default_operator [OF ne(1)] DrawAt_default_operator [OF ne(2)] ne(1) ok
    by simp
qed

section \<open>The pixel loops and the row partition\<close>

text \<open>
  The equation of \<open>for_loop\<close> is unconditional; the proofs below unfold it one step at a
  time.
\<close>

declare for_loop.simps [simp del]

text \<open>A loop up to \<open>b\<close> followed by the loop from \<open>b\<close> is the loop over both ranges.\<close>

lemma for_loop_append:
  "a \<le> b \<Longrightarrow> b \<le> c \<Longrightarrow> for_loop body b c (for_loop body a b s) = for_loop body a c s"
proof (induction body a b s rule: for_loop.induct)
  case (1 body i stop s)
  show ?case
  proof (cases "i < stop")
    case True
    then have "for_loop body stop c (for_loop body (i + 1) stop (body i s)) = for_loop body (i + 1) c (body i s)"
      using "1.IH" "1.prems" by simp
    moreover have "for_loop body i stop s = for_loop body (i + 1) stop (body i s)"
      using True by (subst for_loop.simps) simp
    moreover have "for_loop body i c s = for_loop body (i + 1) c (body i s)"
      using True "1.prems" by (subst for_loop.simps) simp
    ultimately show ?thesis by simp
  next
    case False
    then have "i = stop" using "1.prems" by simp
    then show ?thesis by (subst (2) for_loop.simps) simp
  qed
qed

text \<open>
  The chunks of \<open>parallelize\<close> start at \<open>start\<close>, end at \<open>stop\<close> and are contiguous
  and in order: they cover the range without gap or overlap. Run one after the other on a
  loop, they are the loop over the whole range.
\<close>

lemma chunk_bound_0: "chunk_bound n start stop 0 = start"
  by (simp add: chunk_bound_def)

lemma chunk_bound_n: "0 < n \<Longrightarrow> chunk_bound n start stop n = stop"
  by (simp add: chunk_bound_def)

lemma chunk_bound_mono:
  "start \<le> stop \<Longrightarrow> chunk_bound n start stop k \<le> chunk_bound n start stop (Suc k)"
  unfolding chunk_bound_def
  by (cases "n = 0") (auto intro!: zdiv_mono1 mult_right_mono)

lemma chunk_bound_ge: "start \<le> stop \<Longrightarrow> start \<le> chunk_bound n start stop k"
  unfolding chunk_bound_def by (cases "n = 0") (simp_all add: pos_imp_zdiv_nonneg_iff)

lemma foldl_chunks:
  assumes "start \<le> stop"
  shows "foldl (\<lambda>s' (a, b). for_loop body a b s') s
           (map (\<lambda>k. (chunk_bound n start stop k, chunk_bound n start stop (Suc k))) [0..<k])
         = for_loop body start (chunk_bound n start stop k) s"
proof (induction k)
  case 0
  show ?case by (simp add: chunk_bound_0) (subst for_loop.simps, simp)
next
  case (Suc k)
  show ?case
    using Suc.IH chunk_bound_mono[OF assms, of n k] chunk_bound_ge[OF assms, of n k]
    by (simp add: for_loop_append)
qed

lemma parallelize_for_loop:
  assumes "1 \<le> procs"
  shows "parallelize procs start stop (for_loop body) s = for_loop body start stop s"
proof (cases "stop \<le> start")
  case True
  then show ?thesis by (simp add: parallelize_def) (subst for_loop.simps, simp)
next
  case False
  then have n: "0 < nat (min procs (stop - start))" using assms by simp
  show ?thesis
    using False foldl_chunks[of start stop body s "nat (min procs (stop - start))" "nat (min procs (stop - start))"]
      chunk_bound_n[OF n]
    by (simp add: parallelize_def chunks_def)
qed

text \<open>
  The effect of the pixel loops. One step of either loop body blends a single point; a
  loop of bodies that blend pairwise disjoint regions blends their union, as long as the
  temporary and the destination do not share their backing array.
\<close>

lemma Pt_XY [simp]: "Pt (X p) (Y p) = p" "X (Pt x y) = x" "Y (Pt x y) = y"
  by (simp_all add: Pt_def)

lemma blend_region_empty:
  assumes "\<And>p. \<not> (R p \<and> Point_In p (Rect dst))"
  shows "blend_region h dst tmp R s = s"
proof -
  have "(\<lambda>p. if R p \<and> Point_In p (Rect dst)
             then h (heap s (buf dst) p) (getPixel tmp (X p) (Y p) s)
             else heap s (buf dst) p) = heap s (buf dst)"
    using assms by (auto simp: fun_eq_iff)
  then show ?thesis by (simp add: blend_region_def)
qed

lemma blend_region_cong: "(\<And>p. R p = R' p) \<Longrightarrow> blend_region h dst tmp R s = blend_region h dst tmp R' s"
  by (simp add: blend_region_def)

lemma blend_region_compose:
  assumes "buf tmp \<noteq> buf dst" and "\<And>p. \<not> (R1 p \<and> R2 p)"
  shows "blend_region h dst tmp R2 (blend_region h dst tmp R1 s)
       = blend_region h dst tmp (\<lambda>p. R1 p \<or> R2 p) s"
  using assms
  by (auto simp: blend_region_def getPixel_def fun_eq_iff intro!: arg_cong[where f="\<lambda>h. s\<lparr>heap := h\<rparr>"])


lemma copy_body_blend:
  "copy_body dst tmp x y s = blend_region (\<lambda>px0 px1. px1) dst tmp (\<lambda>p. p = Pt x y) s"
proof (cases "Point_In (Pt x y) (Rect dst)")
  case True
  then show ?thesis
    by (auto simp: copy_body_def setPixel_def getPixel_def blend_region_def fun_eq_iff
        intro!: arg_cong[where f="\<lambda>h. s\<lparr>heap := h\<rparr>"])
next
  case False
  then have "blend_region (\<lambda>px0 px1. px1) dst tmp (\<lambda>p. p = Pt x y) s = s"
    by (intro blend_region_empty) auto
  then show ?thesis using False by (simp add: copy_body_def setPixel_def)
qed

lemma for_loop_blend:
  assumes "buf tmp \<noteq> buf dst"
    and "\<And>i s. body i s = blend_region h dst tmp (R i) s"
    and "\<And>i j p. i \<noteq> j \<Longrightarrow> \<not> (R i p \<and> R j p)"
  shows "for_loop body a b s = blend_region h dst tmp (\<lambda>p. \<exists>i. a \<le> i \<and> i < b \<and> R i p) s"
  using assms
proof (induction body a b s rule: for_loop.induct)
  case (1 body i stop s)
  show ?case
  proof (cases "i < stop")
    case True
    have "for_loop body i stop s = for_loop body (i + 1) stop (body i s)"
      using True by (subst for_loop.simps) simp
    also have "\<dots> = blend_region h dst tmp (\<lambda>p. \<exists>j. i + 1 \<le> j \<and> j < stop \<and> R j p) (body i s)"
      using "1.IH"[OF True "1.prems"] by simp
    also have "\<dots> = blend_region h dst tmp (\<lambda>p. \<exists>j. i + 1 \<le> j \<and> j < stop \<and> R j p)
                        (blend_region h dst tmp (R i) s)"
      using "1.prems"(2) by simp
    also have "\<dots> = blend_region h dst tmp (\<lambda>p. R i p \<or> (\<exists>j. i + 1 \<le> j \<and> j < stop \<and> R j p)) s"
    proof (rule blend_region_compose[OF "1.prems"(1)])
      fix p show "\<not> (R i p \<and> (\<exists>j. i + 1 \<le> j \<and> j < stop \<and> R j p))"
        using "1.prems"(3)[of i _ p] by fastforce
    qed
    also have "\<dots> = blend_region h dst tmp (\<lambda>p. \<exists>j. i \<le> j \<and> j < stop \<and> R j p) s"
    proof (rule blend_region_cong)
      fix p
      show "(R i p \<or> (\<exists>j. i + 1 \<le> j \<and> j < stop \<and> R j p)) = (\<exists>j. i \<le> j \<and> j < stop \<and> R j p)"
      proof
        assume "R i p \<or> (\<exists>j. i + 1 \<le> j \<and> j < stop \<and> R j p)"
        then show "\<exists>j. i \<le> j \<and> j < stop \<and> R j p"
          using True by (metis add_le_imp_le_right le_add_same_cancel1 zero_le_one order_refl order_trans less_imp_le zle_add1_eq_le)
      next
        assume "\<exists>j. i \<le> j \<and> j < stop \<and> R j p"
        then obtain j where j: "i \<le> j" "j < stop" "R j p" by blast
        show "R i p \<or> (\<exists>j. i + 1 \<le> j \<and> j < stop \<and> R j p)"
        proof (cases "j = i")
          case True then show ?thesis using j by simp
        next
          case False
          then have "i + 1 \<le> j" using j by simp
          then show ?thesis using j by blast
        qed
      qed
    qed
    finally show ?thesis .
  next
    case False
    have "for_loop body i stop s = s"
      using False by (subst for_loop.simps) simp
    moreover have "blend_region h dst tmp (\<lambda>p. \<exists>j. i \<le> j \<and> j < stop \<and> R j p) s = s"
      using False by (intro blend_region_empty) auto
    ultimately show ?thesis by simp
  qed
qed

lemma work_blend:
  assumes ne: "buf tmp \<noteq> buf dst"
    and body: "\<And>x y s. body x y s = blend_region h dst tmp (\<lambda>p. p = Pt x y) s"
  shows "for_loop (\<lambda>y. for_loop (\<lambda>x. body x y) x0 x1) y0 y1 s
       = blend_region h dst tmp (\<lambda>p. y0 \<le> Y p \<and> Y p < y1 \<and> x0 \<le> X p \<and> X p < x1) s"
proof -
  have row: "\<And>y s. for_loop (\<lambda>x. body x y) x0 x1 s
       = blend_region h dst tmp (\<lambda>p. \<exists>x. x0 \<le> x \<and> x < x1 \<and> p = Pt x y) s"
  proof -
    fix y s
    show "for_loop (\<lambda>x. body x y) x0 x1 s
       = blend_region h dst tmp (\<lambda>p. \<exists>x. x0 \<le> x \<and> x < x1 \<and> p = Pt x y) s"
      by (rule for_loop_blend[OF ne]) (auto simp: body Pt_def)
  qed
  have "for_loop (\<lambda>y. for_loop (\<lambda>x. body x y) x0 x1) y0 y1 s
       = blend_region h dst tmp (\<lambda>p. \<exists>y. y0 \<le> y \<and> y < y1 \<and> (\<exists>x. x0 \<le> x \<and> x < x1 \<and> p = Pt x y)) s"
    by (rule for_loop_blend[OF ne]) (auto simp: row Pt_def)
  also have "\<dots> = blend_region h dst tmp (\<lambda>p. y0 \<le> Y p \<and> Y p < y1 \<and> x0 \<le> X p \<and> X p < x1) s"
  proof (rule blend_region_cong)
    fix p
    show "(\<exists>y. y0 \<le> y \<and> y < y1 \<and> (\<exists>x. x0 \<le> x \<and> x < x1 \<and> p = Pt x y))
        = (y0 \<le> Y p \<and> Y p < y1 \<and> x0 \<le> X p \<and> X p < x1)"
      by (metis Pt_XY)
  qed
  finally show ?thesis .
qed




lemma copy_work_eq:
  "copy_work dst tmp ib = for_loop (\<lambda>y. for_loop (\<lambda>x. copy_body dst tmp x y) (X (MinR ib)) (X (MaxR ib)))"
  by (intro ext) (simp add: copy_work_def)


lemma parallelize_copy_work:
  assumes "1 \<le> procs" and "buf tmp \<noteq> buf dst"
  shows "parallelize procs (Y (MinR ib)) (Y (MaxR ib)) (copy_work dst tmp ib) s
       = blend_region (\<lambda>px0 px1. px1) dst tmp (\<lambda>p. Point_In p ib) s"
proof -
  have "parallelize procs (Y (MinR ib)) (Y (MaxR ib)) (copy_work dst tmp ib) s
      = for_loop (\<lambda>y. for_loop (\<lambda>x. copy_body dst tmp x y) (X (MinR ib)) (X (MaxR ib)))
          (Y (MinR ib)) (Y (MaxR ib)) s"
    unfolding copy_work_eq by (rule parallelize_for_loop[OF assms(1)])
  also have "\<dots> = blend_region (\<lambda>px0 px1. px1) dst tmp
      (\<lambda>p. Y (MinR ib) \<le> Y p \<and> Y p < Y (MaxR ib) \<and> X (MinR ib) \<le> X p \<and> X p < X (MaxR ib)) s"
    by (rule work_blend[OF assms(2)]) (rule copy_body_blend)
  also have "\<dots> = blend_region (\<lambda>px0 px1. px1) dst tmp (\<lambda>p. Point_In p ib) s"
    by (rule blend_region_cong) (auto simp: Point_In_def)
  finally show ?thesis .
qed




section \<open>The Over operator\<close>


lemma fmul_NaN [simp]: "fmul x NaN = NaN"
  by (cases x) simp_all

lemma fadd_NaN [simp]: "fadd x NaN = NaN"
  by (cases x) simp_all













section \<open>The frame of Draw and the default branch\<close>












lemma filter_contract_failing: "filter_contract failing_filter"
  by (auto simp: filter_contract_def failing_filter_def)


text \<open>
  The general path of the default branch, when the render into the temporary succeeds:
  the pixels of the temporary replace those of the destination on the intersection.
\<close>

lemma DrawAt_Copy_general_store:
  assumes "op \<noteq> OverOperator"
    and "1 \<le> Workers (options g)"
    and "buf dst < next_addr s"
    and "\<not> Point_Eq pt (MinR (Rect dst))"
    and "getSubImage dst pt = None"
    and "createTempImage (translated_bounds g src pt) s = (tmp, s1)"
    and "Draw g tmp src s1 = (None, s2)"
  shows "DrawAt g dst src pt op s =
      (None, blend_region (\<lambda>px0 px1. px1) dst tmp
         (\<lambda>p. Point_In p (Rectangle_Intersect (translated_bounds g src pt) (Rect dst))) s2)"
proof -
  have "buf tmp = next_addr s"
    using assms(6) by (auto simp: createTempImage_def)
  then have ne: "buf tmp \<noteq> buf dst"
    using assms(3) by simp
  show ?thesis
    using assms(1,4,5,6,7) parallelize_copy_work[OF assms(2) ne]
    by (simp add: DrawAt_def Let_def)
qed




end
